theory Spec2Isabelle
  imports Complex_Main "HOL-Library.AList"
begin

section \<open>The concurrency limiter (concurrency.ts)\<close>

text \<open>
  A \<open>Waiter\<close> holds the two callbacks of a suspended \<open>acquire()\<close> and a settled flag.
  The pair of callbacks is modelled by one value \<open>owner\<close> that identifies the suspended
  caller: resolving the waiter grants the slot to that caller, rejecting it fails that
  caller's \<open>acquire()\<close>. The constructor takes \<open>maxConcurrent\<close> as it is given, any
  JavaScript number; it is modelled by \<open>real\<close> (\<open>NaN\<close> and the infinities are left
  out). \<open>count\<close> starts at \<open>0\<close> and only ever changes by one, so it is an \<open>int\<close>;
  the test \<open>count < maxConcurrent\<close> compares it with the capacity as a number.
\<close>

record 'k Waiter =
  owner :: 'k
  settled :: bool

record 'k ConcurrencyLimiter =
  count :: int
  queue :: "'k Waiter list"
  maxConcurrent :: real

text \<open>\<open>new ConcurrencyLimiter(maxConcurrent)\<close>: \<open>count = 0\<close>, \<open>queue = []\<close>.\<close>

definition newLimiter :: "real \<Rightarrow> 'k ConcurrencyLimiter" where
  "newLimiter n = \<lparr>count = 0, queue = [], maxConcurrent = n\<rparr>"

text \<open>
  \<open>acquire()\<close>: with a free slot the count is incremented and the returned promise is
  already resolved (\<open>True\<close>); otherwise a fresh unsettled waiter is pushed at the back
  of the queue and the promise stays pending (\<open>False\<close>).
\<close>

definition acquire :: "'k \<Rightarrow> 'k ConcurrencyLimiter \<Rightarrow> bool \<times> 'k ConcurrencyLimiter" where
  "acquire k l =
     (if of_int (count l) < maxConcurrent l
      then (True, l\<lparr>count := count l + 1\<rparr>)
      else (False, l\<lparr>queue := queue l @ [\<lparr>owner = k, settled = False\<rparr>]\<rparr>))"

text \<open>
  The \<open>while\<close> loop of \<open>release()\<close>: shift the head; a settled head is dropped and the
  loop goes on; an unsettled head is settled and resolved, and \<open>release\<close> returns.
  The result is the owner that was resolved (if any) and the queue that is left.
\<close>

fun release_loop :: "'k Waiter list \<Rightarrow> 'k option \<times> 'k Waiter list" where
  "release_loop [] = (None, [])"
| "release_loop (w # ws) = (if settled w then release_loop ws else (Some (owner w), ws))"

text \<open>
  \<open>release()\<close>: when the loop resolved a waiter the count is untouched; when the loop
  ran the queue empty, \<open>count = Math.max(0, count - 1)\<close>.
\<close>

definition release :: "'k ConcurrencyLimiter \<Rightarrow> 'k option \<times> 'k ConcurrencyLimiter" where
  "release l =
     (case release_loop (queue l) of
        (Some k, q) \<Rightarrow> (Some k, l\<lparr>queue := q\<rparr>)
      | (None, q) \<Rightarrow> (None, l\<lparr>queue := q, count := max 0 (count l - 1)\<rparr>))"

text \<open>
  \<open>clear()\<close>: every unsettled waiter is rejected (their owners are returned in queue
  order), the queue is emptied and the count reset.
\<close>

definition clear :: "'k ConcurrencyLimiter \<Rightarrow> 'k list \<times> 'k ConcurrencyLimiter" where
  "clear l = (map owner (filter (\<lambda>w. \<not> settled w) (queue l)), l\<lparr>queue := [], count := 0\<rparr>)"

text \<open>A call of one of the three public methods, and a finite sequence of calls.\<close>

datatype 'k limiter_call = Acquire 'k | Release | Clear

fun limiter_step :: "'k ConcurrencyLimiter \<Rightarrow> 'k limiter_call \<Rightarrow> 'k ConcurrencyLimiter" where
  "limiter_step l (Acquire k) = snd (acquire k l)"
| "limiter_step l Release = snd (release l)"
| "limiter_step l Clear = snd (clear l)"

definition limiter_run :: "'k ConcurrencyLimiter \<Rightarrow> 'k limiter_call list \<Rightarrow> 'k ConcurrencyLimiter" where
  "limiter_run l cs = foldl limiter_step l cs"

text \<open>The first waiter of a queue that is not yet settled, and what follows it.\<close>

definition first_unsettled :: "'k Waiter list \<Rightarrow> 'k Waiter option" where
  "first_unsettled q = find (\<lambda>w. \<not> settled w) q"

definition after_first_unsettled :: "'k Waiter list \<Rightarrow> 'k Waiter list" where
  "after_first_unsettled q = tl (dropWhile settled q)"

section \<open>Tasks, configuration and the execution context provider (types.ts)\<close>

datatype TaskStatus = Pending | Running | Completed | Error | Cancelled

text \<open>
  A task identifier \<open>kiwi-n\<close> is modelled by its number \<open>n\<close>. Dates are milliseconds
  as \<open>int\<close>; an optional field is an \<open>option\<close>.
\<close>

record BackgroundTask =
  task_id :: nat
  sessionID :: "string option"
  parentSessionID :: string
  description :: string
  prompt :: string
  status :: TaskStatus
  startedAt :: "int option"
  completedAt :: "int option"
  result :: "string option"
  error :: "string option"
  lastMsgCount :: "nat option"
  stablePolls :: "nat option"

text \<open>
  Of \<open>LaunchInput\<close> the fields \<open>system\<close> and \<open>tools\<close> only travel in the body of the
  \<open>promptAsync\<close> request and never reach the manager's state; they are left out.
\<close>

record LaunchInput =
  in_description :: string
  in_prompt :: string
  in_parentSessionID :: string

record OrchestrationConfig =
  cfg_maxConcurrent :: real
  pollingIntervalMs :: int
  taskTimeoutMs :: int
  summaryMaxChars :: int

definition DEFAULT_CONFIG :: OrchestrationConfig where
  "DEFAULT_CONFIG = \<lparr>cfg_maxConcurrent = 3, pollingIntervalMs = 3000,
                      taskTimeoutMs = 120000, summaryMaxChars = 8000\<rparr>"

definition STABLE_POLL_THRESHOLD :: nat where
  "STABLE_POLL_THRESHOLD = 3"

text \<open>
  What the provider answers to a request: the promise rejects (the thrown value is kept
  as the text \<open>err.message\<close> / \<open>String(err)\<close>) or resolves with a value.
\<close>

datatype 'a reply = Rejects string | Resolves 'a

text \<open>
  A content part passes the test of \<open>extractResult\<close> (an object with \<open>type === "text"\<close>
  and a \<open>text\<close> property) or it does not. A message has an optional role
  (\<open>msg?.info?.role\<close>) and \<open>parts\<close>, which is \<open>None\<close> when it is not an array.
\<close>

datatype part = TextPart string | OtherPart

record message =
  role :: "string option"
  parts :: "part list option"

text \<open>The answer to \<open>session.messages\<close>: \<open>None\<close> when the data is not an array.\<close>

type_synonym messages_reply = "message list option reply"

text \<open>
  The answer to \<open>session.status\<close>: a table from session id to the \<open>type\<close> of its
  status, \<open>None\<close> when the data is not an object.
\<close>

type_synonym statuses = "string \<rightharpoonup> string"

type_synonym status_reply = "statuses option reply"

text \<open>The answer to \<open>session.create\<close>: the \<open>id\<close> of the session, \<open>None\<close> when the data has none.\<close>

type_synonym create_reply = "string option reply"

text \<open>The requests the manager sends to the provider, recorded in the order sent.\<close>

datatype request =
  SessionCreate string string
  | SessionPromptAsync string string
  | SessionAbort string
  | SessionMessages string "nat option"
  | SessionStatus

text \<open>How an asynchronous call ended, as far as it got.\<close>

datatype 'a promise = Rejected string | Fulfilled 'a | Unsettled

section \<open>The session manager (session-manager.ts)\<close>

text \<open>
  \<open>tasks\<close> is the \<open>Map\<close> from identifier to task object, in insertion order. A reference
  to a task object is modelled by the task's key: entries are never removed, and a
  field assignment through a reference is an update of the entry under that key.
  \<open>concurrency\<close> queues the suspended \<open>launch\<close> calls, named by the task they launch.
  \<open>taskCounter\<close> is the module's counter. Two fields record effects that leave the
  manager: \<open>requests\<close>, the requests sent to the provider, and \<open>resumed\<close>, the
  suspended launches whose \<open>acquire()\<close> a \<open>release()\<close> has resolved.
\<close>

record SessionManager =
  tasks :: "(nat \<times> BackgroundTask) list"
  concurrency :: "nat ConcurrencyLimiter"
  config :: OrchestrationConfig
  taskCounter :: nat
  requests :: "request list"
  resumed :: "nat list"

definition newSessionManager :: "OrchestrationConfig \<Rightarrow> nat \<Rightarrow> SessionManager" where
  "newSessionManager cfg n =
     \<lparr>tasks = [], concurrency = newLimiter (cfg_maxConcurrent cfg), config = cfg,
      taskCounter = n, requests = [], resumed = []\<rparr>"

definition getTask :: "SessionManager \<Rightarrow> nat \<Rightarrow> BackgroundTask option" where
  "getTask m i = map_of (tasks m) i"

text \<open>Assignments to fields of the task object \<open>i\<close>.\<close>

definition assign :: "nat \<Rightarrow> (BackgroundTask \<Rightarrow> BackgroundTask) \<Rightarrow> SessionManager \<Rightarrow> SessionManager" where
  "assign i f m =
     (case getTask m i of
        None \<Rightarrow> m
      | Some t \<Rightarrow> m\<lparr>tasks := AList.update i (f t) (tasks m)\<rparr>)"

definition send :: "request \<Rightarrow> SessionManager \<Rightarrow> SessionManager" where
  "send r m = m\<lparr>requests := requests m @ [r]\<rparr>"

text \<open>\<open>this.concurrency.release()\<close>.\<close>

definition releaseSlot :: "SessionManager \<Rightarrow> SessionManager" where
  "releaseSlot m =
     (case release (concurrency m) of
        (g, l) \<Rightarrow> m\<lparr>concurrency := l,
                     resumed := resumed m @ (case g of None \<Rightarrow> [] | Some k \<Rightarrow> [k])\<rparr>)"

text \<open>JavaScript truthiness of an optional string: defined and not empty.\<close>

definition truthy :: "string option \<Rightarrow> bool" where
  "truthy s = (case s of None \<Rightarrow> False | Some x \<Rightarrow> x \<noteq> [])"

definition terminal :: "TaskStatus \<Rightarrow> bool" where
  "terminal s = (s = Completed \<or> s = Cancelled \<or> s = Error)"

subsection \<open>createTask, startSession, launch\<close>

definition createTask :: "LaunchInput \<Rightarrow> SessionManager \<Rightarrow> nat \<times> SessionManager" where
  "createTask inp m =
     (let i = taskCounter m + 1;
          t = \<lparr>task_id = i, sessionID = None, parentSessionID = in_parentSessionID inp,
               description = in_description inp, prompt = in_prompt inp, status = Pending,
               startedAt = None, completedAt = None, result = None, error = None,
               lastMsgCount = None, stablePolls = None\<rparr>
      in (i, m\<lparr>taskCounter := i, tasks := AList.update i t (tasks m)\<rparr>))"

text \<open>
  \<open>startSession\<close>, with the provider's answers to \<open>create\<close> and \<open>promptAsync\<close> and the
  time read by \<open>new Date()\<close>. It throws when \<open>create\<close> rejects, when the created
  session has no \<open>id\<close>, and when \<open>promptAsync\<close> rejects (then the task is already
  \<open>running\<close>).
\<close>

definition startSession ::
  "SessionManager \<Rightarrow> nat \<Rightarrow> LaunchInput \<Rightarrow> int \<Rightarrow> create_reply \<Rightarrow> unit reply
     \<Rightarrow> SessionManager \<times> unit promise" where
  "startSession m i inp now cr pr =
     (let title = ''[kiwi] '' @ (case getTask m i of None \<Rightarrow> [] | Some t \<Rightarrow> description t);
          m1 = send (SessionCreate (in_parentSessionID inp) title) m
      in case cr of
           Rejects e \<Rightarrow> (m1, Rejected e)
         | Resolves None \<Rightarrow> (m1, Rejected ''Failed to create sub-agent session'')
         | Resolves (Some sid) \<Rightarrow>
             (let m2 = assign i (\<lambda>t. t\<lparr>sessionID := Some sid, status := Running,
                                        startedAt := Some now\<rparr>) m1;
                  m3 = send (SessionPromptAsync sid (in_prompt inp)) m2
              in case pr of
                   Rejects e \<Rightarrow> (m3, Rejected e)
                 | Resolves u \<Rightarrow> (m3, Fulfilled ())))"

text \<open>
  \<open>launch\<close> up to its first \<open>await\<close>: the task is created and a slot requested. The
  result tells whether the slot was granted at once; if not, the launch is queued.
\<close>

definition launch_begin :: "SessionManager \<Rightarrow> LaunchInput \<Rightarrow> nat \<times> bool \<times> SessionManager" where
  "launch_begin m inp =
     (case createTask inp m of
        (i, m1) \<Rightarrow> (case acquire i (concurrency m1) of
                       (g, l) \<Rightarrow> (i, g, m1\<lparr>concurrency := l\<rparr>)))"

text \<open>
  \<open>launch\<close> from the point where \<open>acquire()\<close> has settled: \<open>granted = False\<close> is the
  \<open>catch\<close> of a rejected acquire, \<open>granted = True\<close> goes on with \<open>startSession\<close> inside
  its \<open>try\<close>. The value returned is the reference to the task.
\<close>

definition launch_settled ::
  "SessionManager \<Rightarrow> nat \<Rightarrow> LaunchInput \<Rightarrow> bool \<Rightarrow> int \<Rightarrow> create_reply \<Rightarrow> unit reply
     \<Rightarrow> SessionManager \<times> nat promise" where
  "launch_settled m i inp granted now cr pr =
     (if \<not> granted
      then (assign i (\<lambda>t. t\<lparr>status := Error,
                              error := Some ''Failed to acquire concurrency slot''\<rparr>) m,
            Fulfilled i)
      else (case startSession m i inp now cr pr of
              (m1, Rejected e) \<Rightarrow>
                (releaseSlot (assign i (\<lambda>t. t\<lparr>status := Error, error := Some e\<rparr>) m1),
                 Fulfilled i)
            | (m1, Fulfilled u) \<Rightarrow> (m1, Fulfilled i)
            | (m1, Unsettled) \<Rightarrow> (m1, Unsettled)))"

text \<open>\<open>launch\<close> run without interruption; a queued launch stays unsettled.\<close>

definition launch ::
  "SessionManager \<Rightarrow> LaunchInput \<Rightarrow> int \<Rightarrow> create_reply \<Rightarrow> unit reply
     \<Rightarrow> SessionManager \<times> nat promise" where
  "launch m inp now cr pr =
     (case launch_begin m inp of
        (i, True, m1) \<Rightarrow> launch_settled m1 i inp True now cr pr
      | (i, False, m1) \<Rightarrow> (m1, Unsettled))"

subsection \<open>cancelTask\<close>

datatype cancel_point = CancelReturned bool | CancelAwaitsAbort

text \<open>
  \<open>cancelTask\<close> up to \<open>await abort\<close>. Without a truthy \<open>sessionID\<close> there is no
  \<open>await\<close> and the call runs to its end.
\<close>

definition cancelTask_begin :: "SessionManager \<Rightarrow> nat \<Rightarrow> int \<Rightarrow> SessionManager \<times> cancel_point" where
  "cancelTask_begin m i now =
     (case getTask m i of
        None \<Rightarrow> (m, CancelReturned False)
      | Some t \<Rightarrow>
          if status t = Completed \<or> status t = Cancelled \<or> status t = Error
          then (m, CancelReturned False)
          else (let m1 = assign i (\<lambda>t. t\<lparr>status := Cancelled, completedAt := Some now\<rparr>) m
                in if truthy (sessionID t)
                   then (send (SessionAbort (the (sessionID t))) m1, CancelAwaitsAbort)
                   else (releaseSlot m1, CancelReturned True)))"

text \<open>After \<open>abort\<close> has settled; a rejection is swallowed by the empty \<open>catch\<close>.\<close>

definition cancelTask_end :: "SessionManager \<Rightarrow> unit reply \<Rightarrow> SessionManager \<times> bool" where
  "cancelTask_end m ar = (releaseSlot m, True)"

definition cancelTask :: "SessionManager \<Rightarrow> nat \<Rightarrow> int \<Rightarrow> unit reply \<Rightarrow> SessionManager \<times> bool" where
  "cancelTask m i now ar =
     (case cancelTask_begin m i now of
        (m1, CancelReturned b) \<Rightarrow> (m1, b)
      | (m1, CancelAwaitsAbort) \<Rightarrow> cancelTask_end m1 ar)"

subsection \<open>extractResult and tryComplete\<close>

fun join :: "string \<Rightarrow> string list \<Rightarrow> string" where
  "join sep [] = []"
| "join sep [x] = x"
| "join sep (x # y # ys) = x @ sep @ join sep (y # ys)"

text \<open>\<open>s.slice(0, n)\<close>: a negative \<open>n\<close> counts from the end.\<close>

definition slice0 :: "string \<Rightarrow> int \<Rightarrow> string" where
  "slice0 s n = (if 0 \<le> n then take (nat n) s else take (nat (int (length s) + n)) s)"

definition newline2 :: string where
  "newline2 = [CHR 0x0A, CHR 0x0A]"

definition truncation_marker :: string where
  "truncation_marker = newline2 @ ''[... truncated]''"

definition no_output :: string where
  "no_output = ''(no output)''"

definition text_parts :: "part list \<Rightarrow> string list" where
  "text_parts ps = concat (map (\<lambda>p. case p of TextPart s \<Rightarrow> [s] | OtherPart \<Rightarrow> []) ps)"

text \<open>
  The loop of \<open>extractResult\<close> from the last message down: a message that is not the
  assistant's, or whose \<open>parts\<close> is not an array, is passed over; the first other one
  gives its text parts and ends the loop. The argument is the reversed sequence.
\<close>

fun scan_latest :: "message list \<Rightarrow> string list" where
  "scan_latest [] = []"
| "scan_latest (msg # ms) =
     (if role msg \<noteq> Some ''assistant'' then scan_latest ms
      else case parts msg of
             None \<Rightarrow> scan_latest ms
           | Some ps \<Rightarrow> text_parts ps)"

definition summarize :: "OrchestrationConfig \<Rightarrow> string list \<Rightarrow> string" where
  "summarize cfg textParts =
     (let r = join newline2 textParts
      in if int (length r) > summaryMaxChars cfg
         then slice0 r (summaryMaxChars cfg) @ truncation_marker
         else r)"

text \<open>\<open>extractResult\<close> on the provider's answer: \<open>Inl\<close> is the error it throws.\<close>

definition extractResult :: "OrchestrationConfig \<Rightarrow> messages_reply \<Rightarrow> string + string" where
  "extractResult cfg mr =
     (case mr of
        Rejects e \<Rightarrow> Inl e
      | Resolves None \<Rightarrow> Inr no_output
      | Resolves (Some messages) \<Rightarrow>
          (let textParts = scan_latest (rev messages)
           in if textParts = [] then Inr no_output else Inr (summarize cfg textParts)))"

text \<open>
  \<open>tryComplete\<close> up to \<open>await this.extractResult(...)\<close>: the two guards, then the
  request. The result tells whether the call is now waiting for the messages.
\<close>

definition tryComplete_begin :: "SessionManager \<Rightarrow> nat \<Rightarrow> SessionManager \<times> bool" where
  "tryComplete_begin m i =
     (case getTask m i of
        None \<Rightarrow> (m, False)
      | Some t \<Rightarrow>
          if status t \<noteq> Running then (m, False)
          else if \<not> truthy (sessionID t) then (m, False)
          else (send (SessionMessages (the (sessionID t)) None) m, True))"

text \<open>
  \<open>tryComplete\<close> after the messages have arrived: the \<open>try\<close> body or the \<open>catch\<close>
  writes the outcome, and \<open>finally\<close> releases the slot.
\<close>

definition tryComplete_end :: "SessionManager \<Rightarrow> nat \<Rightarrow> int \<Rightarrow> messages_reply \<Rightarrow> SessionManager" where
  "tryComplete_end m i now mr =
     releaseSlot
       (case extractResult (config m) mr of
          Inr r \<Rightarrow> assign i (\<lambda>t. t\<lparr>status := Completed, completedAt := Some now,
                                     result := Some r\<rparr>) m
        | Inl e \<Rightarrow> assign i (\<lambda>t. t\<lparr>status := Error, completedAt := Some now,
                                     error := Some e\<rparr>) m)"


subsection \<open>handleEvent\<close>

record event =
  ev_type :: string
  ev_sessionID :: "string option"

definition findBySessionID :: "SessionManager \<Rightarrow> string \<Rightarrow> (nat \<times> BackgroundTask) option" where
  "findBySessionID m sid = find (\<lambda>(k, t). sessionID t = Some sid) (tasks m)"

text \<open>
  \<open>handleEvent\<close> changes nothing itself; it may set a timer that calls \<open>tryComplete\<close>
  on the task found 500 ms later. The result is the key of that task.
\<close>

definition handleEvent :: "SessionManager \<Rightarrow> event \<Rightarrow> nat option" where
  "handleEvent m ev =
     (if ev_type ev \<noteq> ''session.idle'' then None
      else if \<not> truthy (ev_sessionID ev) then None
      else case findBySessionID m (the (ev_sessionID ev)) of
             None \<Rightarrow> None
           | Some (k, t) \<Rightarrow> if status t \<noteq> Running then None else Some k)"

subsection \<open>pollTask and pollRunningTasks\<close>

datatype poll_point = PollReturned | PollAwaitsAbort | PollAwaitsResult | PollAwaitsCount

definition TIMED_OUT :: string where
  "TIMED_OUT = ''Task timed out''"

text \<open>
  \<open>pollTask\<close> up to its first \<open>await\<close>: the guard, the timeout check (which enters
  \<open>cancelTask\<close>), the status check (which enters \<open>tryComplete\<close>), or the request for
  the message count. \<open>Date.now()\<close> of the timeout check and \<open>new Date()\<close> of the
  \<open>cancelTask\<close> it enters are read in one synchronous stretch and are the one \<open>now\<close>.
\<close>

definition pollTask_begin ::
  "SessionManager \<Rightarrow> nat \<Rightarrow> int \<Rightarrow> statuses option \<Rightarrow> SessionManager \<times> poll_point" where
  "pollTask_begin m i now sts =
     (case getTask m i of
        None \<Rightarrow> (m, PollReturned)
      | Some t \<Rightarrow>
          if status t \<noteq> Running \<or> \<not> truthy (sessionID t) then (m, PollReturned)
          else if (case startedAt t of None \<Rightarrow> False
                   | Some t0 \<Rightarrow> now - t0 > taskTimeoutMs (config m))
          then (case cancelTask_begin m i now of
                  (m1, CancelAwaitsAbort) \<Rightarrow> (m1, PollAwaitsAbort)
                | (m1, CancelReturned b) \<Rightarrow>
                    (assign i (\<lambda>t. t\<lparr>error := Some TIMED_OUT\<rparr>) m1, PollReturned))
          else if (case sts of None \<Rightarrow> False
                   | Some s \<Rightarrow> s (the (sessionID t)) = Some ''idle'')
          then (case tryComplete_begin m i of
                  (m1, True) \<Rightarrow> (m1, PollAwaitsResult)
                | (m1, False) \<Rightarrow> (m1, PollReturned))
          else (send (SessionMessages (the (sessionID t)) (Some 1)) m, PollAwaitsCount))"

text \<open>The timeout branch after \<open>cancelTask\<close> has returned.\<close>

definition pollTask_aborted :: "SessionManager \<Rightarrow> nat \<Rightarrow> unit reply \<Rightarrow> SessionManager" where
  "pollTask_aborted m i ar =
     (case cancelTask_end m ar of
        (m1, b) \<Rightarrow> assign i (\<lambda>t. t\<lparr>error := Some TIMED_OUT\<rparr>) m1)"

text \<open>
  The stability branch after the message count has arrived. A rejected request is
  swallowed by the \<open>catch\<close>.
\<close>

definition pollTask_counted ::
  "SessionManager \<Rightarrow> nat \<Rightarrow> messages_reply \<Rightarrow> SessionManager \<times> poll_point" where
  "pollTask_counted m i cr =
     (case cr of
        Rejects e \<Rightarrow> (m, PollReturned)
      | Resolves d \<Rightarrow>
          (let msgCount = (case d of None \<Rightarrow> 0 | Some msgs \<Rightarrow> length msgs)
           in case getTask m i of
                None \<Rightarrow> (m, PollReturned)
              | Some t \<Rightarrow>
                  if lastMsgCount t = Some msgCount
                  then (let n = (case stablePolls t of None \<Rightarrow> 0 | Some k \<Rightarrow> k) + 1;
                            m1 = assign i (\<lambda>t. t\<lparr>stablePolls := Some n\<rparr>) m
                        in if n \<ge> STABLE_POLL_THRESHOLD
                           then (case tryComplete_begin m1 i of
                                   (m2, True) \<Rightarrow> (m2, PollAwaitsResult)
                                 | (m2, False) \<Rightarrow> (m2, PollReturned))
                           else (m1, PollReturned))
                  else (assign i (\<lambda>t. t\<lparr>lastMsgCount := Some msgCount,
                                          stablePolls := Some 0\<rparr>) m,
                        PollReturned)))"

text \<open>
  What one uninterrupted run of \<open>pollTask\<close> meets: the clock at its start, the answer
  to the count request, the clock and the messages when \<open>tryComplete\<close> commits, and
  the answer to \<open>abort\<close>.
\<close>

record poll_env =
  now :: int
  count_reply :: messages_reply
  commit_time :: int
  result_reply :: messages_reply
  abort_reply :: "unit reply"

definition pollTask :: "SessionManager \<Rightarrow> nat \<Rightarrow> statuses option \<Rightarrow> poll_env \<Rightarrow> SessionManager" where
  "pollTask m i sts env =
     (case pollTask_begin m i (now env) sts of
        (m1, PollReturned) \<Rightarrow> m1
      | (m1, PollAwaitsAbort) \<Rightarrow> pollTask_aborted m1 i (abort_reply env)
      | (m1, PollAwaitsResult) \<Rightarrow> tryComplete_end m1 i (commit_time env) (result_reply env)
      | (m1, PollAwaitsCount) \<Rightarrow>
          (case pollTask_counted m1 i (count_reply env) of
             (m2, PollAwaitsResult) \<Rightarrow> tryComplete_end m2 i (commit_time env) (result_reply env)
           | (m2, p) \<Rightarrow> m2))"

text \<open>The \<open>for\<close> loop of \<open>pollRunningTasks\<close> over the tasks that were running.\<close>

fun pollEach ::
  "SessionManager \<Rightarrow> nat list \<Rightarrow> statuses \<Rightarrow> (nat \<Rightarrow> poll_env) \<Rightarrow> SessionManager" where
  "pollEach m [] sts envs = m"
| "pollEach m (i # rest) sts envs =
     (case getTask m i of
        None \<Rightarrow> pollEach m rest sts envs
      | Some t \<Rightarrow>
          if \<not> truthy (sessionID t) then pollEach m rest sts envs
          else pollEach (pollTask m i (Some sts) (envs i)) rest sts envs)"

definition running_tasks :: "SessionManager \<Rightarrow> nat list" where
  "running_tasks m = map fst (filter (\<lambda>(k, t). status t = Running) (tasks m))"

text \<open>
  One tick of the poll timer, with the answer to the status request and, for each
  task, what its \<open>pollTask\<close> meets.
\<close>

definition pollRunningTasks ::
  "SessionManager \<Rightarrow> status_reply \<Rightarrow> (nat \<Rightarrow> poll_env) \<Rightarrow> SessionManager" where
  "pollRunningTasks m sr envs =
     (let running = running_tasks m
      in if running = [] then m
         else (let m1 = send SessionStatus m
               in case sr of
                    Rejects e \<Rightarrow> m1
                  | Resolves d \<Rightarrow>
                      pollEach m1 running (case d of None \<Rightarrow> Map.empty | Some s \<Rightarrow> s) envs))"

subsection \<open>launchAndWait\<close>

text \<open>
  One turn of the \<open>while\<close> loop of \<open>launchAndWait\<close>: \<open>clock\<close> is \<open>Date.now()\<close> at the
  deadline test, the environment is what the \<open>pollTask\<close> after the sleep meets. The
  result tells whether the loop goes on.
\<close>

definition waitTurn ::
  "SessionManager \<Rightarrow> nat \<Rightarrow> int \<Rightarrow> int \<Rightarrow> poll_env \<Rightarrow> SessionManager \<times> bool" where
  "waitTurn m i deadline clock env =
     (case getTask m i of
        None \<Rightarrow> (m, False)
      | Some t \<Rightarrow>
          if status t = Running \<or> status t = Pending
          then (if clock > deadline
                then (case cancelTask m i clock (abort_reply env) of
                        (m1, b) \<Rightarrow> (assign i (\<lambda>t. t\<lparr>error := Some TIMED_OUT\<rparr>) m1, False))
                else (pollTask m i None env, True))
          else (m, False))"

text \<open>The loop, for as many turns as environments are given.\<close>

fun waitLoop ::
  "SessionManager \<Rightarrow> nat \<Rightarrow> int \<Rightarrow> (int \<times> poll_env) list \<Rightarrow> SessionManager \<times> nat promise" where
  "waitLoop m i deadline [] =
     (case getTask m i of
        None \<Rightarrow> (m, Fulfilled i)
      | Some t \<Rightarrow> if status t = Running \<or> status t = Pending then (m, Unsettled)
                  else (m, Fulfilled i))"
| "waitLoop m i deadline ((clock, env) # es) =
     (case waitTurn m i deadline clock env of
        (m1, True) \<Rightarrow> waitLoop m1 i deadline es
      | (m1, False) \<Rightarrow> (m1, Fulfilled i))"

definition launchAndWait ::
  "SessionManager \<Rightarrow> LaunchInput \<Rightarrow> int option \<Rightarrow> int \<Rightarrow> create_reply \<Rightarrow> unit reply
     \<Rightarrow> int \<Rightarrow> (int \<times> poll_env) list \<Rightarrow> SessionManager \<times> nat promise" where
  "launchAndWait m inp timeoutMs started cr pr clock es =
     (case launch m inp started cr pr of
        (m1, Fulfilled i) \<Rightarrow>
          (case getTask m1 i of
             None \<Rightarrow> (m1, Fulfilled i)
           | Some t \<Rightarrow>
               if status t = Error then (m1, Fulfilled i)
               else waitLoop m1 i
                      (clock + (case timeoutMs of None \<Rightarrow> taskTimeoutMs (config m1)
                                | Some x \<Rightarrow> x)) es)
      | (m1, p) \<Rightarrow> (m1, p))"

section \<open>Vocabulary of the properties\<close>


text \<open>A text cut to a budget of characters, with the marker appended when it was cut.\<close>

definition truncated :: "int \<Rightarrow> string \<Rightarrow> string" where
  "truncated budget r =
     (if int (length r) \<le> budget then r else take (nat budget) r @ truncation_marker)"


text \<open>Why creating the session fails, if it does.\<close>

definition create_failure :: "create_reply \<Rightarrow> string option" where
  "create_failure cr =
     (case cr of
        Rejects e \<Rightarrow> Some e
      | Resolves None \<Rightarrow> Some ''Failed to create sub-agent session''
      | Resolves (Some sid) \<Rightarrow> None)"

text \<open>Whom a \<open>release()\<close> on this limiter wakes.\<close>

definition woken :: "nat ConcurrencyLimiter \<Rightarrow> nat list" where
  "woken l = (case fst (release l) of None \<Rightarrow> [] | Some k \<Rightarrow> [k])"

text \<open>The timeout test of the poll step, its status test, and the count it reads.\<close>

definition timed_out :: "OrchestrationConfig \<Rightarrow> BackgroundTask \<Rightarrow> int \<Rightarrow> bool" where
  "timed_out cfg t clock =
     (case startedAt t of None \<Rightarrow> False | Some t0 \<Rightarrow> clock - t0 > taskTimeoutMs cfg)"

definition reported_idle :: "statuses option \<Rightarrow> BackgroundTask \<Rightarrow> bool" where
  "reported_idle sts t =
     (case sts of None \<Rightarrow> False | Some s \<Rightarrow> s (the (sessionID t)) = Some ''idle'')"

definition msgCount :: "message list option \<Rightarrow> nat" where
  "msgCount d = (case d of None \<Rightarrow> 0 | Some msgs \<Rightarrow> length msgs)"

text \<open>
  A poll step \<^emph>\<open>observes\<close> the count \<open>c\<close> when it gets as far as the stability check
  (the task has not timed out and is not reported idle) and the count request answers
  with \<open>c\<close> messages.
\<close>

definition observes :: "SessionManager \<Rightarrow> BackgroundTask \<Rightarrow> statuses option \<Rightarrow> poll_env \<Rightarrow> nat \<Rightarrow> bool" where
  "observes m t sts env c =
     (\<not> timed_out (config m) t (now env) \<and> \<not> reported_idle sts t
      \<and> (case count_reply env of Rejects e \<Rightarrow> False | Resolves d \<Rightarrow> msgCount d = c))"

text \<open>The record that resolving leaves: completed with the result, or in error.\<close>

definition resolved :: "OrchestrationConfig \<Rightarrow> BackgroundTask \<Rightarrow> int \<Rightarrow> messages_reply \<Rightarrow> BackgroundTask" where
  "resolved cfg t clock mr =
     (case extractResult cfg mr of
        Inr r \<Rightarrow> t\<lparr>status := Completed, completedAt := Some clock, result := Some r\<rparr>
      | Inl e \<Rightarrow> t\<lparr>status := Error, completedAt := Some clock, error := Some e\<rparr>)"

text \<open>The stable-poll counter as the poll step reads it (\<open>stablePolls ?? 0\<close>).\<close>

definition stable :: "BackgroundTask \<Rightarrow> nat" where
  "stable t = (case stablePolls t of None \<Rightarrow> 0 | Some k \<Rightarrow> k)"

subsection \<open>A manager with two running tasks\<close>

definition task_a :: BackgroundTask where
  "task_a = \<lparr>task_id = 2, sessionID = Some ''ses_a'', parentSessionID = ''root'',
             description = ''scan'', prompt = ''list the files'', status = Running,
             startedAt = Some 1000, completedAt = None, result = None, error = None,
             lastMsgCount = Some 1, stablePolls = Some 0\<rparr>"

definition task_b :: BackgroundTask where
  "task_b = \<lparr>task_id = 3, sessionID = Some ''ses_b'', parentSessionID = ''root'',
             description = ''grep'', prompt = ''find the callers'', status = Running,
             startedAt = Some 2000, completedAt = None, result = None, error = None,
             lastMsgCount = None, stablePolls = None\<rparr>"

definition two_running :: SessionManager where
  "two_running =
     \<lparr>tasks = [(2, task_a), (3, task_b)],
      concurrency = \<lparr>count = 2, queue = [], maxConcurrent = 3\<rparr>,
      config = DEFAULT_CONFIG, taskCounter = 3, requests = [], resumed = []\<rparr>"

definition all_busy :: SessionManager where
  "all_busy = two_running\<lparr>concurrency := \<lparr>count = 2, queue = [], maxConcurrent = 2\<rparr>\<rparr>"

definition find_tests :: LaunchInput where
  "find_tests = \<lparr>in_description = ''tests'', in_prompt = ''find the tests'',
                  in_parentSessionID = ''root''\<rparr>"

definition answer :: message where
  "answer = \<lparr>role = Some ''assistant'', parts = Some [TextPart ''done'', OtherPart, TextPart ''ok'']\<rparr>"

definition question :: message where
  "question = \<lparr>role = Some ''user'', parts = Some [TextPart ''go'']\<rparr>"

definition quiet_env :: poll_env where
  "quiet_env = \<lparr>now = 5000, count_reply = Resolves (Some [answer]), commit_time = 5200,
                result_reply = Resolves (Some [question, answer]), abort_reply = Resolves ()\<rparr>"

definition late_env :: poll_env where
  "late_env = \<lparr>now = 130000, count_reply = Resolves (Some [answer]), commit_time = 130200,
               result_reply = Resolves (Some [question, answer]), abort_reply = Rejects ''gone''\<rparr>"

definition failing_env :: poll_env where
  "failing_env = quiet_env\<lparr>result_reply := Rejects ''fetch failed''\<rparr>"

definition busy_env :: poll_env where
  "busy_env = quiet_env\<lparr>count_reply := Resolves (Some [question, answer])\<rparr>"

subsection \<open>Two resolutions of one task that overlap\<close>

text \<open>
  The session of task 2 goes idle. The timer set by \<open>handleEvent\<close> fires and
  \<open>tryComplete\<close> passes its guards and waits for the messages. Before they arrive, a
  poll step finds the session reported idle and enters \<open>tryComplete\<close> as well: the
  task is still running, so the guards pass again. Then the first call gets its
  messages and commits, and then the second call's request fails and it commits too.
\<close>

definition idle_event :: event where
  "idle_event = \<lparr>ev_type = ''session.idle'', ev_sessionID = Some ''ses_a''\<rparr>"

definition race_event_started :: SessionManager where
  "race_event_started = fst (tryComplete_begin two_running 2)"

definition race_poll_started :: SessionManager where
  "race_poll_started = fst (pollTask_begin race_event_started 2 5000 (Some [''ses_a'' \<mapsto> ''idle'']))"

definition race_poll_point :: poll_point where
  "race_poll_point = snd (pollTask_begin race_event_started 2 5000 (Some [''ses_a'' \<mapsto> ''idle'']))"

definition race_event_committed :: SessionManager where
  "race_event_committed = tryComplete_end race_poll_started 2 5100 (Resolves (Some [question, answer]))"

definition race_poll_committed :: SessionManager where
  "race_poll_committed = tryComplete_end race_event_committed 2 5200 (Rejects ''fetch failed'')"

subsection \<open>A cancellation during a resolution\<close>

text \<open>
  While the deferred \<open>tryComplete\<close> of task 2 waits for the messages, \<open>cancelTask\<close>
  runs on task 2; then the messages arrive and \<open>tryComplete\<close> commits.
\<close>

definition overlap_cancelled :: SessionManager where
  "overlap_cancelled = fst (cancelTask race_event_started 2 6000 (Resolves ()))"

definition overlap_committed :: SessionManager where
  "overlap_committed = tryComplete_end overlap_cancelled 2 6100 (Resolves (Some [question, answer]))"

subsection \<open>A cancellation of a queued launch\<close>

text \<open>
  Both slots are taken. A \<open>launch\<close> creates task 4 and is queued in \<open>acquire()\<close>.
  \<open>cancelTask\<close> runs on task 4: it is pending, so it is set to cancelled, and the
  \<open>release()\<close> of \<open>cancelTask\<close> resolves the waiter at the head of the queue, which is
  the one of this very launch. The launch goes on after its \<open>await\<close> with
  \<open>startSession\<close>.
\<close>

definition queued_launch :: "nat \<times> bool \<times> SessionManager" where
  "queued_launch = launch_begin all_busy find_tests"

definition queued_state :: SessionManager where
  "queued_state = snd (snd queued_launch)"

definition queued_cancelled :: SessionManager where
  "queued_cancelled = fst (cancelTask queued_state 4 7000 (Resolves ()))"

definition queued_continued :: SessionManager where
  "queued_continued =
     fst (launch_settled queued_cancelled 4 find_tests True 7100
            (Resolves (Some ''ses_c'')) (Resolves ()))"

subsection \<open>A poll step on a task that has timed out, stopped at its await\<close>

definition timeout_cancelled :: SessionManager where
  "timeout_cancelled = fst (pollTask_begin two_running 2 130000 None)"

definition timeout_stamped :: SessionManager where
  "timeout_stamped = pollTask_aborted timeout_cancelled 2 (Resolves ())"

section \<open>Properties of the limiter\<close>

lemma release_loop_find:
  "release_loop q = (map_option owner (find (\<lambda>w. \<not> settled w) q), tl (dropWhile settled q))"
  by (induction q) auto

lemma limiter_step_max [simp]: "maxConcurrent (limiter_step l c) = maxConcurrent l"
  by (cases c) (auto simp: acquire_def release_def clear_def split: prod.splits option.splits)

lemma limiter_step_lower:
  assumes "0 \<le> count l"
  shows "0 \<le> count (limiter_step l c)"
  using assms
  by (cases c) (auto simp: acquire_def release_def clear_def split: prod.splits option.splits)

lemma limiter_step_upper:
  assumes "maxConcurrent l = of_int k" and "0 \<le> k" and "count l \<le> k"
  shows "count (limiter_step l c) \<le> k"
  using assms
  by (cases c) (auto simp: acquire_def release_def clear_def split: prod.splits option.splits)

lemma limiter_step_unsettled:
  assumes "\<forall>w \<in> set (queue l). \<not> settled w"
  shows "\<forall>w \<in> set (queue (limiter_step l c)). \<not> settled w"
proof (cases c)
  case (Acquire k)
  with assms show ?thesis by (auto simp: acquire_def)
next
  case Release
  have "set (tl (dropWhile settled (queue l))) \<subseteq> set (queue l)"
    by (metis list.set_sel(2) set_dropWhileD subsetI tl_Nil)
  with assms Release show ?thesis
    by (auto simp: release_def release_loop_find split: option.splits)
next
  case Clear
  then show ?thesis by (simp add: clear_def)
qed

lemma limiter_run_snoc: "limiter_run l (cs @ [c]) = limiter_step (limiter_run l cs) c"
  by (simp add: limiter_run_def)

lemma limiter_run_max [simp]: "maxConcurrent (limiter_run l cs) = maxConcurrent l"
  by (induction cs rule: rev_induct) (simp_all add: limiter_run_def)

lemma limiter_run_lower:
  assumes "0 \<le> count l"
  shows "0 \<le> count (limiter_run l cs)"
proof (induction cs rule: rev_induct)
  case Nil
  from assms show ?case by (simp add: limiter_run_def)
next
  case (snoc c cs)
  from limiter_step_lower [OF snoc] show ?case by (simp add: limiter_run_snoc)
qed

lemma limiter_run_upper:
  assumes "maxConcurrent l = of_int k" and "0 \<le> k" and "count l \<le> k"
  shows "count (limiter_run l cs) \<le> k"
proof (induction cs rule: rev_induct)
  case Nil
  from assms show ?case by (simp add: limiter_run_def)
next
  case (snoc c cs)
  have "maxConcurrent (limiter_run l cs) = of_int k" using assms(1) by simp
  from limiter_step_upper [OF this assms(2) snoc] show ?case by (simp add: limiter_run_snoc)
qed

lemma limiter_run_unsettled:
  "\<forall>w \<in> set (queue (limiter_run (newLimiter n) cs)). \<not> settled w"
proof (induction cs rule: rev_induct)
  case Nil
  show ?case by (simp add: limiter_run_def newLimiter_def)
next
  case (snoc c cs)
  from limiter_step_unsettled [OF snoc] show ?case by (simp add: limiter_run_snoc)
qed

text \<open>
  Claim C3, amended. Start from a limiter constructed with a \<open>maxConcurrent\<close> that is
  a non-negative integer \<open>k\<close> and make any finite sequence of \<open>acquire()\<close>, \<open>release()\<close>
  and \<open>clear()\<close> calls. After every call (that is, after every prefix of the sequence)
  the count lies between \<open>0\<close> and \<open>k\<close>.
\<close>

theorem limiter_count_bounded:
  assumes "0 \<le> k"
  shows "0 \<le> count (limiter_run (newLimiter (of_int k)) (take i cs))
         \<and> count (limiter_run (newLimiter (of_int k)) (take i cs)) \<le> k"
  using limiter_run_lower [of "newLimiter (of_int k)" "take i cs"]
    limiter_run_upper [of "newLimiter (of_int k)" k "take i cs"] assms
  by (simp add: newLimiter_def)

theorem limiter_count_bounded_witness:
  "(0::int) \<le> 1
   \<and> count (limiter_run (newLimiter (of_int 1))
               (take 3 [Acquire (1::nat), Acquire 2, Release, Release, Clear])) = 1
   \<and> count (limiter_run (newLimiter (of_int 1))
               (take 4 [Acquire (1::nat), Acquire 2, Release, Release, Clear])) = 0"
  using limiter_count_bounded [of 1 3 "[Acquire (1::nat), Acquire 2, Release, Release, Clear]"]
  by (simp add: limiter_run_def newLimiter_def acquire_def release_def clear_def)

text \<open>
  The claim as it was stated fails: a limiter constructed with \<open>maxConcurrent = 0.5\<close>,
  which is not negative, grants the first \<open>acquire()\<close> because \<open>0 < 0.5\<close>, and the count
  is then \<open>1\<close>, above \<open>maxConcurrent\<close>. With \<open>2.5\<close> the count reaches \<open>3\<close>.
\<close>

theorem limiter_fractional_capacity:
  "(0::real) \<le> 1 / 2
   \<and> count (limiter_run (newLimiter (1 / 2)) [Acquire (1::nat)]) = 1
   \<and> \<not> of_int (count (limiter_run (newLimiter (1 / 2)) [Acquire (1::nat)])) \<le> (1 / 2 :: real)
   \<and> (0::real) \<le> 5 / 2
   \<and> count (limiter_run (newLimiter (5 / 2)) [Acquire (1::nat), Acquire 2, Acquire 3]) = 3
   \<and> \<not> of_int (count (limiter_run (newLimiter (5 / 2)) [Acquire (1::nat), Acquire 2, Acquire 3]))
         \<le> (5 / 2 :: real)"
  by (simp add: limiter_run_def newLimiter_def acquire_def)

text \<open>
  Claim C4. In every state the limiter can reach from its constructor, all queued
  waiters are unsettled; when the queue is not empty, \<open>release()\<close> resolves the waiter
  at the head (the one that has waited longest), leaves the other waiters queued in
  their order and does not change the count. Wherever settled entries stand in front
  of an unsettled one, they are skipped and the first unsettled waiter is resolved,
  again with the count unchanged. When the queue is empty, \<open>release()\<close> resolves nobody
  and sets the count to \<open>max 0 (count - 1)\<close>.
\<close>

theorem release_fifo:
  "(let l = limiter_run (newLimiter n) cs in
      queue l \<noteq> [] \<longrightarrow>
        release l = (Some (owner (hd (queue l))), l\<lparr>queue := tl (queue l)\<rparr>))
   \<and> (first_unsettled (queue l') = Some w \<longrightarrow>
        release l' = (Some (owner w), l'\<lparr>queue := after_first_unsettled (queue l')\<rparr>))
   \<and> (queue l' = [] \<longrightarrow>
        release l' = (None, l'\<lparr>count := max 0 (count l' - 1)\<rparr>))"
proof -
  have a: "queue l \<noteq> [] \<longrightarrow> release l = (Some (owner (hd (queue l))), l\<lparr>queue := tl (queue l)\<rparr>)"
    if "l = limiter_run (newLimiter n) cs" for l :: "'a ConcurrencyLimiter"
  proof
    assume ne: "queue l \<noteq> []"
    then obtain w ws where q: "queue l = w # ws" by (cases "queue l") auto
    from limiter_run_unsettled [of n cs] that q have "\<not> settled w" by auto
    with q show "release l = (Some (owner (hd (queue l))), l\<lparr>queue := tl (queue l)\<rparr>)"
      by (simp add: release_def)
  qed
  have b: "first_unsettled (queue l') = Some w \<longrightarrow>
        release l' = (Some (owner w), l'\<lparr>queue := after_first_unsettled (queue l')\<rparr>)"
    by (simp add: release_def release_loop_find first_unsettled_def after_first_unsettled_def)
  have c: "queue l' = [] \<longrightarrow> release l' = (None, l'\<lparr>count := max 0 (count l' - 1)\<rparr>)"
    by (simp add: release_def)
  from a b c show ?thesis by (simp add: Let_def)
qed

theorem release_fifo_witness:
  "(let l = limiter_run (newLimiter 1) [Acquire (1::nat), Acquire 2, Acquire 3] in
      queue l \<noteq> [] \<and> release l = (Some 2, l\<lparr>queue := [\<lparr>owner = 3, settled = False\<rparr>]\<rparr>))
   \<and> first_unsettled [\<lparr>owner = 7::nat, settled = True\<rparr>, \<lparr>owner = 8, settled = False\<rparr>,
                       \<lparr>owner = 9, settled = False\<rparr>] = Some \<lparr>owner = 8, settled = False\<rparr>
   \<and> release \<lparr>count = 2, queue = [\<lparr>owner = 7::nat, settled = True\<rparr>, \<lparr>owner = 8, settled = False\<rparr>,
                                   \<lparr>owner = 9, settled = False\<rparr>], maxConcurrent = 2\<rparr>
       = (Some 8, \<lparr>count = 2, queue = [\<lparr>owner = 9, settled = False\<rparr>], maxConcurrent = 2\<rparr>)
   \<and> release \<lparr>count = 0, queue = ([] :: nat Waiter list), maxConcurrent = 2\<rparr>
       = (None, \<lparr>count = 0, queue = [], maxConcurrent = 2\<rparr>)"
  using release_fifo [where n = 1 and cs = "[Acquire (1::nat), Acquire 2, Acquire 3]"
      and w = "\<lparr>owner = 8::nat, settled = False\<rparr>"
      and l' = "\<lparr>count = 2, queue = [\<lparr>owner = 7::nat, settled = True\<rparr>, \<lparr>owner = 8, settled = False\<rparr>,
                            \<lparr>owner = 9, settled = False\<rparr>], maxConcurrent = 2\<rparr>"]
    release_fifo [where n = 1 and cs = "[] :: nat limiter_call list"
      and w = "\<lparr>owner = 8::nat, settled = False\<rparr>"
      and l' = "\<lparr>count = 0, queue = ([] :: nat Waiter list), maxConcurrent = 2\<rparr>"]
  by (simp add: limiter_run_def newLimiter_def acquire_def first_unsettled_def
      after_first_unsettled_def)

section \<open>Properties of the session manager\<close>

lemma getTask_assign [simp]:
  "getTask (assign i f m) j = (if j = i then map_option f (getTask m i) else getTask m j)"
  by (auto simp: assign_def getTask_def update_conv' split: option.splits)

lemma assign_fields [simp]:
  "concurrency (assign i f m) = concurrency m"
  "config (assign i f m) = config m"
  "taskCounter (assign i f m) = taskCounter m"
  "requests (assign i f m) = requests m"
  "resumed (assign i f m) = resumed m"
  by (simp_all add: assign_def split: option.splits)

lemma send_fields [simp]:
  "getTask (send r m) j = getTask m j"
  "tasks (send r m) = tasks m"
  "concurrency (send r m) = concurrency m"
  "config (send r m) = config m"
  "taskCounter (send r m) = taskCounter m"
  "requests (send r m) = requests m @ [r]"
  "resumed (send r m) = resumed m"
  by (simp_all add: send_def getTask_def)

lemma releaseSlot_fields [simp]:
  "getTask (releaseSlot m) j = getTask m j"
  "tasks (releaseSlot m) = tasks m"
  "concurrency (releaseSlot m) = snd (release (concurrency m))"
  "config (releaseSlot m) = config m"
  "taskCounter (releaseSlot m) = taskCounter m"
  "requests (releaseSlot m) = requests m"
  "resumed (releaseSlot m) = resumed m @ woken (concurrency m)"
  by (simp_all add: releaseSlot_def getTask_def woken_def split: prod.splits)

lemmas demo_defs =
  two_running_def task_a_def task_b_def DEFAULT_CONFIG_def quiet_env_def late_env_def
  answer_def question_def

lemma getTask_two_running [simp]:
  "getTask two_running 2 = Some task_a" "getTask two_running 3 = Some task_b"
  by (simp_all add: getTask_def two_running_def)

subsection \<open>cancelTask\<close>

text \<open>
  Claim C7. \<open>cancelTask\<close> on a task that is completed, cancelled or in error returns
  \<open>false\<close> and leaves the whole manager as it was. On a pending or running task it
  returns \<open>true\<close>; the task's record differs from before in exactly \<open>status = cancelled\<close>
  and \<open>completedAt\<close> = the current time; other tasks are untouched; an \<open>abort\<close> request
  for the task's session is sent when it has one (and whether that request succeeds or
  fails makes no difference); \<open>release()\<close> is called once on the limiter.
\<close>

theorem cancelTask_spec:
  assumes "getTask m i = Some t"
  shows "(terminal (status t) \<longrightarrow> cancelTask m i clock ar = (m, False))
       \<and> (status t = Pending \<or> status t = Running \<longrightarrow>
           (case cancelTask m i clock ar of
              (m', b) \<Rightarrow>
                b \<and> getTask m' i = Some (t\<lparr>status := Cancelled, completedAt := Some clock\<rparr>)
                \<and> (\<forall>j. j \<noteq> i \<longrightarrow> getTask m' j = getTask m j)
                \<and> requests m' = requests m @ (if truthy (sessionID t)
                                                then [SessionAbort (the (sessionID t))] else [])
                \<and> concurrency m' = snd (release (concurrency m))
                \<and> resumed m' = resumed m @ woken (concurrency m)))"
  using assms
  by (auto simp: cancelTask_def cancelTask_begin_def cancelTask_end_def terminal_def)

theorem cancelTask_spec_witness:
  "getTask two_running 2 = Some task_a \<and> status task_a = Running
   \<and> (case cancelTask two_running 2 7000 (Rejects ''gone'') of
        (m', b) \<Rightarrow> b \<and> map_option status (getTask m' 2) = Some Cancelled
                  \<and> map_option completedAt (getTask m' 2) = Some (Some 7000)
                  \<and> requests m' = [SessionAbort ''ses_a'']
                  \<and> count (concurrency m') = 1)
   \<and> (case cancelTask two_running 2 7000 (Rejects ''gone'') of
        (m', b) \<Rightarrow> terminal (Cancelled) \<and> cancelTask m' 2 8000 (Resolves ()) = (m', False))"
proof -
  obtain m' b where c: "cancelTask two_running 2 7000 (Rejects ''gone'') = (m', b)"
    by (cases "cancelTask two_running 2 7000 (Rejects ''gone'')")
  have a: "getTask two_running 2 = Some task_a" by simp
  have r: "status task_a = Running" by (simp add: task_a_def)
  from cancelTask_spec [OF a, of 7000 "Rejects ''gone''"] r c
  have 1: "b" "getTask m' 2 = Some (task_a\<lparr>status := Cancelled, completedAt := Some 7000\<rparr>)"
    "requests m' = requests two_running @ (if truthy (sessionID task_a)
                                           then [SessionAbort (the (sessionID task_a))] else [])"
    "concurrency m' = snd (release (concurrency two_running))"
    by simp_all
  from cancelTask_spec [OF 1(2), of 8000 "Resolves ()"]
  have 2: "cancelTask m' 2 8000 (Resolves ()) = (m', False)"
    by (simp add: terminal_def)
  from 1 2 a r c show ?thesis
    by (simp add: terminal_def truthy_def task_a_def two_running_def release_def)
qed

subsection \<open>The poll step: timeout\<close>

text \<open>
  Claim C6. Take a running task with a session whose \<open>startedAt\<close> lies more than
  \<open>taskTimeoutMs\<close> before the clock of a poll step. Whatever its stability counters
  and whatever the status table says, the poll step leaves the task cancelled, with
  \<open>completedAt\<close> stamped and the error text \<open>Task timed out\<close>, and with its counters
  as they were; it releases the slot; and the only request it sends is the \<open>abort\<close>:
  neither the status of the session is looked at nor a message count fetched.
\<close>

theorem pollTask_timeout:
  assumes "getTask m i = Some t" and "status t = Running" and "truthy (sessionID t)"
    and "startedAt t = Some t0" and "now env - t0 > taskTimeoutMs (config m)"
  shows "getTask (pollTask m i sts env) i
           = Some (t\<lparr>status := Cancelled, completedAt := Some (now env), error := Some TIMED_OUT\<rparr>)
       \<and> (\<forall>j. j \<noteq> i \<longrightarrow> getTask (pollTask m i sts env) j = getTask m j)
       \<and> requests (pollTask m i sts env) = requests m @ [SessionAbort (the (sessionID t))]
       \<and> concurrency (pollTask m i sts env) = snd (release (concurrency m))"
  using assms
  by (auto simp: pollTask_def pollTask_begin_def pollTask_aborted_def cancelTask_begin_def
      cancelTask_end_def)

theorem pollTask_timeout_witness:
  "getTask two_running 2 = Some task_a \<and> status task_a = Running \<and> truthy (sessionID task_a)
   \<and> startedAt task_a = Some 1000 \<and> now late_env - 1000 > taskTimeoutMs (config two_running)
   \<and> map_option status (getTask (pollTask two_running 2 (Some [''ses_a'' \<mapsto> ''idle'']) late_env) 2)
       = Some Cancelled
   \<and> map_option error (getTask (pollTask two_running 2 (Some [''ses_a'' \<mapsto> ''idle'']) late_env) 2)
       = Some (Some ''Task timed out'')
   \<and> requests (pollTask two_running 2 (Some [''ses_a'' \<mapsto> ''idle'']) late_env)
       = [SessionAbort ''ses_a'']"
proof -
  have h: "getTask two_running 2 = Some task_a" "status task_a = Running"
    "truthy (sessionID task_a)" "startedAt task_a = Some 1000"
    "now late_env - 1000 > taskTimeoutMs (config two_running)"
    by (simp_all add: demo_defs truthy_def getTask_def)
  from pollTask_timeout [OF h, of "Some [''ses_a'' \<mapsto> ''idle'']"] h show ?thesis
    by (simp add: TIMED_OUT_def) (simp add: demo_defs)
qed

subsection \<open>The poll tick: failed status query\<close>

text \<open>
  Claim C10. When the status request of a poll tick is rejected, the tick ends there:
  the task table, the limiter and the list of woken launches are exactly as before,
  and the status request is the only request that was sent (no \<open>abort\<close>, no message
  fetch, so no task was checked for timeout or stability).
\<close>

theorem pollRunningTasks_status_fails:
  "tasks (pollRunningTasks m (Rejects e) envs) = tasks m
   \<and> concurrency (pollRunningTasks m (Rejects e) envs) = concurrency m
   \<and> resumed (pollRunningTasks m (Rejects e) envs) = resumed m
   \<and> config (pollRunningTasks m (Rejects e) envs) = config m
   \<and> taskCounter (pollRunningTasks m (Rejects e) envs) = taskCounter m
   \<and> requests (pollRunningTasks m (Rejects e) envs)
       = requests m @ (if running_tasks m = [] then [] else [SessionStatus])"
  by (simp add: pollRunningTasks_def Let_def)

theorem pollRunningTasks_status_fails_witness:
  "running_tasks two_running = [2, 3]
   \<and> tasks (pollRunningTasks two_running (Rejects ''down'') (\<lambda>i. late_env)) = tasks two_running
   \<and> requests (pollRunningTasks two_running (Rejects ''down'') (\<lambda>i. late_env)) = [SessionStatus]"
  using pollRunningTasks_status_fails [of two_running "''down''" "\<lambda>i. late_env"]
  by (simp add: running_tasks_def demo_defs)

subsection \<open>Result extraction\<close>







subsection \<open>launch\<close>

lemma launch_settled_fulfilled: "snd (launch_settled m i inp g clock cr pr) = Fulfilled i"
  by (auto simp: launch_settled_def startSession_def Let_def
      split: reply.splits option.splits prod.splits promise.splits)

lemma launch_never_rejected: "snd (launch m inp clock cr pr) \<noteq> Rejected e"
  using launch_settled_fulfilled
  by (auto simp: launch_def split: prod.splits bool.splits)

lemma launch_rejected_acquire:
  assumes "getTask m i = Some t"
  shows "case launch_settled m i inp False clock cr pr of (m', p) \<Rightarrow>
      getTask m' i = Some (t\<lparr>status := Error, error := Some ''Failed to acquire concurrency slot''\<rparr>)
      \<and> concurrency m' = concurrency m \<and> requests m' = requests m"
  using assms by (simp add: launch_settled_def)

lemma launch_create_fails:
  assumes "getTask m i = Some t" and "create_failure cr = Some d"
  shows "case launch_settled m i inp True clock cr pr of (m', p) \<Rightarrow>
      getTask m' i = Some (t\<lparr>status := Error, error := Some d\<rparr>)
      \<and> concurrency m' = snd (release (concurrency m))"
  using assms
  by (auto simp: launch_settled_def startSession_def create_failure_def Let_def
      split: reply.splits option.splits)

lemma launch_prompt_fails:
  assumes "getTask m i = Some t"
  shows "case launch_settled m i inp True clock (Resolves (Some sid)) (Rejects d) of (m', p) \<Rightarrow>
      getTask m' i = Some (t\<lparr>sessionID := Some sid, status := Error, startedAt := Some clock,
                             error := Some d\<rparr>)
      \<and> concurrency m' = snd (release (concurrency m))"
  using assms by (auto simp: launch_settled_def startSession_def Let_def)

lemma launch_free_slot:
  assumes "of_int (count (concurrency m)) < maxConcurrent (concurrency m)"
    and "queue (concurrency m) = []" and "0 \<le> count (concurrency m)"
  shows "case launch m inp clock cr pr of (m', p) \<Rightarrow>
      p = Fulfilled (taskCounter m + 1)
      \<and> (\<exists>t. getTask m' (taskCounter m + 1) = Some t
           \<and> (if create_failure cr = None \<and> pr = Resolves ()
               then status t = Running \<and> count (concurrency m') = count (concurrency m) + 1
               else status t = Error \<and> error t \<noteq> None \<and> concurrency m' = concurrency m))"
  using assms
  by (cases cr; cases pr)
    (auto simp: launch_def launch_begin_def acquire_def createTask_def Let_def
      launch_settled_def startSession_def create_failure_def getTask_def update_conv'
      assign_def releaseSlot_def release_def send_def split: option.splits)

lemma launch_queued:
  assumes "\<not> of_int (count (concurrency m)) < maxConcurrent (concurrency m)"
  shows "case launch m inp clock cr pr of (m', p) \<Rightarrow>
      p = Unsettled
      \<and> queue (concurrency m') = queue (concurrency m) @ [\<lparr>owner = taskCounter m + 1, settled = False\<rparr>]
      \<and> map_option status (getTask m' (taskCounter m + 1)) = Some Pending"
  using assms
  by (simp add: launch_def launch_begin_def acquire_def createTask_def Let_def getTask_def
      update_conv')

text \<open>
  Claim C9. \<open>launch\<close> never ends in a rejection. Once its \<open>acquire()\<close> has settled it
  returns the task: (1) after a rejected acquire the task is in \<open>error\<close> with the text
  \<open>Failed to acquire concurrency slot\<close>, the limiter is untouched and no request was
  sent; (2) when creating the session fails (the request is rejected or the answer has
  no id) the task is in \<open>error\<close> with that failure's text and \<open>release()\<close> has been
  called; (3) when starting the prompt fails the task is in \<open>error\<close> with that failure's
  text and \<open>release()\<close> has been called; (4) a launch that finds a free slot returns at
  once, and after a failure the limiter is back exactly where it was before the launch;
  (5) a launch that finds no free slot stays queued, its task pending, until the
  acquire settles.
\<close>

theorem launch_spec:
  "snd (launch m0 inp clock cr pr) \<noteq> Rejected e
   \<and> snd (launch_settled m i inp g clock cr pr) = Fulfilled i
   \<and> (getTask m i = Some t \<longrightarrow>
        (case launch_settled m i inp False clock cr pr of
           (m', p) \<Rightarrow>
             getTask m' i = Some (t\<lparr>status := Error,
                                     error := Some ''Failed to acquire concurrency slot''\<rparr>)
             \<and> concurrency m' = concurrency m \<and> requests m' = requests m))
   \<and> (getTask m i = Some t \<and> create_failure cr = Some d \<longrightarrow>
        (case launch_settled m i inp True clock cr pr of
           (m', p) \<Rightarrow>
             getTask m' i = Some (t\<lparr>status := Error, error := Some d\<rparr>)
             \<and> concurrency m' = snd (release (concurrency m))))
   \<and> (getTask m i = Some t \<longrightarrow>
        (case launch_settled m i inp True clock (Resolves (Some sid)) (Rejects d) of
           (m', p) \<Rightarrow>
             getTask m' i = Some (t\<lparr>sessionID := Some sid, status := Error,
                                     startedAt := Some clock, error := Some d\<rparr>)
             \<and> concurrency m' = snd (release (concurrency m))))
   \<and> (of_int (count (concurrency m0)) < maxConcurrent (concurrency m0) \<and> queue (concurrency m0) = []
        \<and> 0 \<le> count (concurrency m0) \<longrightarrow>
        (case launch m0 inp clock cr pr of
           (m', p) \<Rightarrow>
             p = Fulfilled (taskCounter m0 + 1)
             \<and> (\<exists>t. getTask m' (taskCounter m0 + 1) = Some t
                  \<and> (if create_failure cr = None \<and> pr = Resolves ()
                      then status t = Running
                           \<and> count (concurrency m') = count (concurrency m0) + 1
                      else status t = Error \<and> error t \<noteq> None
                           \<and> concurrency m' = concurrency m0))))
   \<and> (\<not> of_int (count (concurrency m0)) < maxConcurrent (concurrency m0) \<longrightarrow>
        (case launch m0 inp clock cr pr of
           (m', p) \<Rightarrow>
             p = Unsettled
             \<and> queue (concurrency m') = queue (concurrency m0)
                  @ [\<lparr>owner = taskCounter m0 + 1, settled = False\<rparr>]
             \<and> map_option status (getTask m' (taskCounter m0 + 1)) = Some Pending))"
proof (intro conjI impI)
  show "snd (launch m0 inp clock cr pr) \<noteq> Rejected e"
    by (rule launch_never_rejected)
  show "snd (launch_settled m i inp g clock cr pr) = Fulfilled i"
    by (rule launch_settled_fulfilled)
  show "case launch_settled m i inp False clock cr pr of
           (m', p) \<Rightarrow>
             getTask m' i = Some (t\<lparr>status := Error,
                                     error := Some ''Failed to acquire concurrency slot''\<rparr>)
             \<and> concurrency m' = concurrency m \<and> requests m' = requests m"
    if "getTask m i = Some t"
    using that by (rule launch_rejected_acquire)
  show "case launch_settled m i inp True clock cr pr of
           (m', p) \<Rightarrow>
             getTask m' i = Some (t\<lparr>status := Error, error := Some d\<rparr>)
             \<and> concurrency m' = snd (release (concurrency m))"
    if "getTask m i = Some t \<and> create_failure cr = Some d"
    using that launch_create_fails [where m = m and i = i and t = t and cr = cr and d = d]
    by simp
  show "case launch_settled m i inp True clock (Resolves (Some sid)) (Rejects d) of
           (m', p) \<Rightarrow>
             getTask m' i = Some (t\<lparr>sessionID := Some sid, status := Error,
                                     startedAt := Some clock, error := Some d\<rparr>)
             \<and> concurrency m' = snd (release (concurrency m))"
    if "getTask m i = Some t"
    using that by (rule launch_prompt_fails)
  show "case launch m0 inp clock cr pr of
           (m', p) \<Rightarrow>
             p = Fulfilled (taskCounter m0 + 1)
             \<and> (\<exists>t. getTask m' (taskCounter m0 + 1) = Some t
                  \<and> (if create_failure cr = None \<and> pr = Resolves ()
                      then status t = Running
                           \<and> count (concurrency m') = count (concurrency m0) + 1
                      else status t = Error \<and> error t \<noteq> None
                           \<and> concurrency m' = concurrency m0))"
    if "of_int (count (concurrency m0)) < maxConcurrent (concurrency m0) \<and> queue (concurrency m0) = []
        \<and> 0 \<le> count (concurrency m0)"
    using that launch_free_slot [where m = m0 and inp = inp and clock = clock and cr = cr and pr = pr]
    by simp
  show "case launch m0 inp clock cr pr of
           (m', p) \<Rightarrow>
             p = Unsettled
             \<and> queue (concurrency m') = queue (concurrency m0)
                  @ [\<lparr>owner = taskCounter m0 + 1, settled = False\<rparr>]
             \<and> map_option status (getTask m' (taskCounter m0 + 1)) = Some Pending"
    if "\<not> of_int (count (concurrency m0)) < maxConcurrent (concurrency m0)"
    using that by (rule launch_queued)
qed

theorem launch_spec_witness:
  "getTask two_running 2 = Some task_a
   \<and> create_failure (Rejects ''no capacity'') = Some ''no capacity''
   \<and> of_int (count (concurrency two_running)) < maxConcurrent (concurrency two_running)
   \<and> queue (concurrency two_running) = [] \<and> 0 \<le> count (concurrency two_running)
   \<and> \<not> of_int (count (concurrency all_busy)) < maxConcurrent (concurrency all_busy)
   \<and> snd (launch two_running find_tests 100 (Rejects ''no capacity'') (Resolves ())) = Fulfilled 4
   \<and> map_option status
        (getTask (fst (launch two_running find_tests 100 (Rejects ''no capacity'') (Resolves ()))) 4)
       = Some Error
   \<and> concurrency (fst (launch two_running find_tests 100 (Rejects ''no capacity'') (Resolves ())))
       = concurrency two_running
   \<and> map_option error
        (getTask (fst (launch_settled two_running 2 find_tests True 100
                         (Rejects ''no capacity'') (Resolves ()))) 2)
       = Some (Some ''no capacity'')
   \<and> snd (launch all_busy find_tests 100 (Resolves (Some ''ses_c'')) (Resolves ())) = Unsettled"
proof -
  have h: "getTask two_running 2 = Some task_a"
    "create_failure (Rejects ''no capacity'') = Some ''no capacity''"
    "of_int (count (concurrency two_running)) < maxConcurrent (concurrency two_running)"
    "queue (concurrency two_running) = []" "0 \<le> count (concurrency two_running)"
    "\<not> of_int (count (concurrency all_busy)) < maxConcurrent (concurrency all_busy)"
    "taskCounter two_running + 1 = 4"
    by (simp_all add: create_failure_def) (simp_all add: two_running_def all_busy_def)
  obtain m1 p1 where l1:
    "launch two_running find_tests 100 (Rejects ''no capacity'') (Resolves ()) = (m1, p1)"
    by (cases "launch two_running find_tests 100 (Rejects ''no capacity'') (Resolves ())")
  obtain m2 p2 where l2:
    "launch_settled two_running 2 find_tests True 100 (Rejects ''no capacity'') (Resolves ())
       = (m2, p2)"
    by (cases "launch_settled two_running 2 find_tests True 100 (Rejects ''no capacity'')
                 (Resolves ())")
  obtain m3 p3 where l3:
    "launch all_busy find_tests 100 (Resolves (Some ''ses_c'')) (Resolves ()) = (m3, p3)"
    by (cases "launch all_busy find_tests 100 (Resolves (Some ''ses_c'')) (Resolves ())")
  from launch_spec [where ?m0.0 = two_running and m = two_running and i = 2 and t = task_a
      and inp = find_tests and clock = 100 and cr = "Rejects ''no capacity''"
      and pr = "Resolves ()" and d = "''no capacity''" and e = "''no capacity''"
      and g = False and sid = "''ses_c''"] h l1 l2
  have "p1 = Fulfilled 4
      \<and> (\<exists>t. getTask m1 4 = Some t \<and> status t = Error \<and> concurrency m1 = concurrency two_running)
      \<and> getTask m2 2 = Some (task_a\<lparr>status := Error, error := Some ''no capacity''\<rparr>)"
    by simp blast
  then have a: "p1 = Fulfilled 4" "map_option status (getTask m1 4) = Some Error"
    "concurrency m1 = concurrency two_running"
    "map_option error (getTask m2 2) = Some (Some ''no capacity'')"
    by auto
  from launch_spec [where ?m0.0 = all_busy and inp = find_tests and clock = 100
      and cr = "Resolves (Some ''ses_c'')" and pr = "Resolves ()" and m = two_running
      and i = 2 and t = task_a and d = "''no capacity''" and e = "''no capacity''"
      and g = False and sid = "''ses_c''"] h l3
  have b: "p3 = Unsettled"
    by simp
  from h a b l1 l2 l3 show ?thesis
    by simp
qed

subsection \<open>The poll step: stability\<close>

lemma pollTask_begin_counts:
  assumes "getTask m i = Some t" "status t = Running" "truthy (sessionID t)"
    "\<not> timed_out (config m) t clock" "\<not> reported_idle sts t"
  shows "pollTask_begin m i clock sts = (send (SessionMessages (the (sessionID t)) (Some 1)) m, PollAwaitsCount)"
  using assms by (simp add: pollTask_begin_def timed_out_def reported_idle_def)

lemma tryComplete_begin_running:
  assumes "getTask m i = Some t" "status t = Running" "truthy (sessionID t)"
  shows "tryComplete_begin m i = (send (SessionMessages (the (sessionID t)) None) m, True)"
  using assms by (simp add: tryComplete_begin_def)

lemma tryComplete_end_resolved:
  assumes "getTask m i = Some t"
  shows "getTask (tryComplete_end m i clock mr) i = Some (resolved (config m) t clock mr)"
    "config (tryComplete_end m i clock mr) = config m"
  using assms by (simp_all add: tryComplete_end_def resolved_def split: sum.splits)

lemma pollTask_counted_same:
  assumes "getTask m i = Some t" "status t = Running" "truthy (sessionID t)"
    "lastMsgCount t = Some (msgCount d)"
  shows "pollTask_counted m i (Resolves d) =
     (if stable t + 1 \<ge> 3
      then (send (SessionMessages (the (sessionID t)) None)
              (assign i (\<lambda>t. t\<lparr>stablePolls := Some (stable t + 1)\<rparr>) m), PollAwaitsResult)
      else (assign i (\<lambda>t. t\<lparr>stablePolls := Some (stable t + 1)\<rparr>) m, PollReturned))"
proof -
  let ?m1 = "assign i (\<lambda>u. u\<lparr>stablePolls := Some (stable t + 1)\<rparr>) m"
  have g: "getTask ?m1 i = Some (t\<lparr>stablePolls := Some (stable t + 1)\<rparr>)"
    using assms(1) by simp
  have b: "tryComplete_begin ?m1 i = (send (SessionMessages (the (sessionID t)) None) ?m1, True)"
    using tryComplete_begin_running [OF g] assms by simp
  have s: "assign i (\<lambda>u. u\<lparr>stablePolls := Some (stable u + 1)\<rparr>) m = ?m1"
    using assms(1) by (simp add: assign_def)
  show ?thesis
    using assms b s
    by (simp add: pollTask_counted_def msgCount_def stable_def STABLE_POLL_THRESHOLD_def Let_def)
qed


lemma pollTask_counted_other:
  assumes "getTask m i = Some t" "lastMsgCount t \<noteq> Some (msgCount d)"
  shows "pollTask_counted m i (Resolves d) =
     (assign i (\<lambda>u. u\<lparr>lastMsgCount := Some (msgCount d), stablePolls := Some 0\<rparr>) m, PollReturned)"
  using assms by (simp add: pollTask_counted_def msgCount_def Let_def)

lemma poll_unchanged:
  assumes "getTask m i = Some t" "status t = Running" "truthy (sessionID t)"
    "observes m t sts env c" "lastMsgCount t = Some c"
  shows "getTask (pollTask m i sts env) i =
     Some (if stable t + 1 \<ge> 3
           then resolved (config m) (t\<lparr>stablePolls := Some (stable t + 1)\<rparr>) (commit_time env) (result_reply env)
           else t\<lparr>stablePolls := Some (stable t + 1)\<rparr>)"
    "config (pollTask m i sts env) = config m"
proof -
  from assms(4) obtain d where d: "count_reply env = Resolves d" "msgCount d = c"
    and n: "\<not> timed_out (config m) t (now env)" "\<not> reported_idle sts t"
    by (auto simp: observes_def split: reply.splits)
  let ?m0 = "send (SessionMessages (the (sessionID t)) (Some 1)) m"
  have b: "pollTask_begin m i (now env) sts = (?m0, PollAwaitsCount)"
    using pollTask_begin_counts [OF assms(1-3) n] .
  have g: "getTask ?m0 i = Some t" using assms(1) by simp
  have k: "pollTask_counted ?m0 i (Resolves d) =
     (if stable t + 1 \<ge> 3
      then (send (SessionMessages (the (sessionID t)) None)
              (assign i (\<lambda>t. t\<lparr>stablePolls := Some (stable t + 1)\<rparr>) ?m0), PollAwaitsResult)
      else (assign i (\<lambda>t. t\<lparr>stablePolls := Some (stable t + 1)\<rparr>) ?m0, PollReturned))"
    using pollTask_counted_same [OF g assms(2,3)] assms(5) d by simp
  have a: "assign i (\<lambda>t. t\<lparr>stablePolls := Some (stable t + 1)\<rparr>) ?m0
      = assign i (\<lambda>u. u\<lparr>stablePolls := Some (stable t + 1)\<rparr>) ?m0"
    using g by (simp add: assign_def)
  show "getTask (pollTask m i sts env) i =
     Some (if stable t + 1 \<ge> 3
           then resolved (config m) (t\<lparr>stablePolls := Some (stable t + 1)\<rparr>) (commit_time env) (result_reply env)
           else t\<lparr>stablePolls := Some (stable t + 1)\<rparr>)"
    using b k d a g by (simp add: pollTask_def tryComplete_end_resolved)
  show "config (pollTask m i sts env) = config m"
    using b k d a g by (simp add: pollTask_def tryComplete_end_resolved)
qed

lemma poll_changed:
  assumes "getTask m i = Some t" "status t = Running" "truthy (sessionID t)"
    "observes m t sts env c" "lastMsgCount t \<noteq> Some c"
  shows "getTask (pollTask m i sts env) i = Some (t\<lparr>lastMsgCount := Some c, stablePolls := Some 0\<rparr>)"
    "config (pollTask m i sts env) = config m"
proof -
  from assms(4) obtain d where d: "count_reply env = Resolves d" "msgCount d = c"
    and n: "\<not> timed_out (config m) t (now env)" "\<not> reported_idle sts t"
    by (auto simp: observes_def split: reply.splits)
  let ?m0 = "send (SessionMessages (the (sessionID t)) (Some 1)) m"
  have b: "pollTask_begin m i (now env) sts = (?m0, PollAwaitsCount)"
    using pollTask_begin_counts [OF assms(1-3) n] .
  have g: "getTask ?m0 i = Some t" using assms(1) by simp
  have k: "pollTask_counted ?m0 i (Resolves d) =
     (assign i (\<lambda>u. u\<lparr>lastMsgCount := Some (msgCount d), stablePolls := Some 0\<rparr>) ?m0, PollReturned)"
    using pollTask_counted_other [OF g] assms(5) d by simp
  show "getTask (pollTask m i sts env) i = Some (t\<lparr>lastMsgCount := Some c, stablePolls := Some 0\<rparr>)"
    using b k d g by (simp add: pollTask_def)
  show "config (pollTask m i sts env) = config m"
    using b k d g by (simp add: pollTask_def)
qed

lemma observes_cong:
  "observes m t sts env c \<Longrightarrow> config m' = config m \<Longrightarrow> startedAt t' = startedAt t
     \<Longrightarrow> sessionID t' = sessionID t \<Longrightarrow> observes m' t' sts env c"
  by (cases sts) (simp_all add: observes_def timed_out_def reported_idle_def)

lemma three_polls:
  assumes t: "getTask m i = Some t" "status t = Running" "truthy (sessionID t)"
    and c: "lastMsgCount t = Some c" "stable t = 0"
    and o: "observes m t s1 e1 c" "observes m t s2 e2 c" "observes m t s3 e3 c"
  shows "getTask (pollTask m i s1 e1) i = Some (t\<lparr>stablePolls := Some 1\<rparr>)"
    "getTask (pollTask (pollTask m i s1 e1) i s2 e2) i = Some (t\<lparr>stablePolls := Some 2\<rparr>)"
    "getTask (pollTask (pollTask (pollTask m i s1 e1) i s2 e2) i s3 e3) i
       = Some (resolved (config m) (t\<lparr>stablePolls := Some 3\<rparr>) (commit_time e3) (result_reply e3))"
proof -
  let ?m1 = "pollTask m i s1 e1"
  let ?m2 = "pollTask ?m1 i s2 e2"
  let ?t1 = "t\<lparr>stablePolls := Some 1\<rparr>"
  let ?t2 = "t\<lparr>stablePolls := Some 2\<rparr>"
  have 1: "getTask ?m1 i = Some ?t1" and c1: "config ?m1 = config m"
    using poll_unchanged [OF t o(1) c(1)] c(2) by simp_all
  have r1: "status ?t1 = Running" "truthy (sessionID ?t1)" "lastMsgCount ?t1 = Some c"
    "stable ?t1 = 1"
    using t c by (simp_all add: stable_def)
  have o2: "observes ?m1 ?t1 s2 e2 c"
    by (rule observes_cong [OF o(2) c1]) simp_all
  have 2: "getTask ?m2 i = Some ?t2" and c2: "config ?m2 = config m"
    using poll_unchanged [OF 1 r1(1,2) o2 r1(3)] r1(4) c1 by simp_all
  have r2: "status ?t2 = Running" "truthy (sessionID ?t2)" "lastMsgCount ?t2 = Some c"
    "stable ?t2 = 2"
    using t c by (simp_all add: stable_def)
  have o3: "observes ?m2 ?t2 s3 e3 c"
    by (rule observes_cong [OF o(3) c2]) simp_all
  have 3: "getTask (pollTask ?m2 i s3 e3) i
       = Some (resolved (config m) (t\<lparr>stablePolls := Some 3\<rparr>) (commit_time e3) (result_reply e3))"
    using poll_unchanged(1) [OF 2 r2(1,2) o3 r2(3)] r2(4) c2 by simp
  from 1 show "getTask ?m1 i = Some ?t1" .
  from 2 show "getTask ?m2 i = Some ?t2" .
  from 3 show "getTask (pollTask ?m2 i s3 e3) i
       = Some (resolved (config m) (t\<lparr>stablePolls := Some 3\<rparr>) (commit_time e3) (result_reply e3))" .
qed

lemma status_resolved:
  "status (resolved cfg t clock mr)
     = (case extractResult cfg mr of Inr r \<Rightarrow> Completed | Inl e \<Rightarrow> Error)"
  by (simp add: resolved_def split: sum.splits)

text \<open>
  Claim C5, amended. Take a running task with a session whose stable-poll counter is 0
  and whose last observed count is \<open>c\<close>, and let three poll steps in a row observe the
  count \<open>c\<close>. After the first and after the second the task is still running, with
  the counter at 1 and at 2 and nothing else changed. The third resolves it: the record
  is the one \<open>tryComplete\<close> writes, which is completed with the extracted result when the
  extraction succeeds and in error with the failure's text when the extraction's message
  request fails. A poll step that observes a count other than the last observed one
  stores the new count and sets the counter to 0, and the task stays running.
\<close>

theorem stability_three_polls:
  assumes "getTask m i = Some t" and "status t = Running" and "truthy (sessionID t)"
  shows "(lastMsgCount t = Some c \<and> stable t = 0
          \<and> observes m t s1 e1 c \<and> observes m t s2 e2 c \<and> observes m t s3 e3 c \<longrightarrow>
            getTask (pollTask m i s1 e1) i = Some (t\<lparr>stablePolls := Some 1\<rparr>)
          \<and> getTask (pollTask (pollTask m i s1 e1) i s2 e2) i = Some (t\<lparr>stablePolls := Some 2\<rparr>)
          \<and> getTask (pollTask (pollTask (pollTask m i s1 e1) i s2 e2) i s3 e3) i
              = Some (resolved (config m) (t\<lparr>stablePolls := Some 3\<rparr>)
                        (commit_time e3) (result_reply e3))
          \<and> status (resolved (config m) (t\<lparr>stablePolls := Some 3\<rparr>)
                        (commit_time e3) (result_reply e3))
              = (case extractResult (config m) (result_reply e3) of
                   Inr r \<Rightarrow> Completed | Inl e \<Rightarrow> Error))
       \<and> (observes m t s e c' \<and> lastMsgCount t \<noteq> Some c' \<longrightarrow>
            getTask (pollTask m i s e) i
              = Some (t\<lparr>lastMsgCount := Some c', stablePolls := Some 0\<rparr>))"
proof (intro conjI impI)
  assume a: "lastMsgCount t = Some c \<and> stable t = 0
          \<and> observes m t s1 e1 c \<and> observes m t s2 e2 c \<and> observes m t s3 e3 c"
  then have c: "lastMsgCount t = Some c" "stable t = 0"
    and o: "observes m t s1 e1 c" "observes m t s2 e2 c" "observes m t s3 e3 c"
    by simp_all
  from three_polls [OF assms c o]
  show "getTask (pollTask m i s1 e1) i = Some (t\<lparr>stablePolls := Some 1\<rparr>)"
    and "getTask (pollTask (pollTask m i s1 e1) i s2 e2) i = Some (t\<lparr>stablePolls := Some 2\<rparr>)"
    and "getTask (pollTask (pollTask (pollTask m i s1 e1) i s2 e2) i s3 e3) i
              = Some (resolved (config m) (t\<lparr>stablePolls := Some 3\<rparr>)
                        (commit_time e3) (result_reply e3))"
    by simp_all
  show "status (resolved (config m) (t\<lparr>stablePolls := Some 3\<rparr>)
                        (commit_time e3) (result_reply e3))
              = (case extractResult (config m) (result_reply e3) of
                   Inr r \<Rightarrow> Completed | Inl e \<Rightarrow> Error)"
    by (rule status_resolved)
next
  assume "observes m t s e c' \<and> lastMsgCount t \<noteq> Some c'"
  then have "observes m t s e c'" "lastMsgCount t \<noteq> Some c'" by simp_all
  from poll_changed(1) [OF assms this]
  show "getTask (pollTask m i s e) i
              = Some (t\<lparr>lastMsgCount := Some c', stablePolls := Some 0\<rparr>)" .
qed

lemma observes_demo:
  "observes two_running task_a None quiet_env 1"
  "observes two_running task_a None failing_env 1"
  "observes two_running task_a None busy_env 2"
  by (simp_all add: observes_def timed_out_def reported_idle_def msgCount_def demo_defs
      failing_env_def busy_env_def)

lemma task_a_facts:
  "status task_a = Running" "truthy (sessionID task_a)" "lastMsgCount task_a = Some 1"
  "stable task_a = 0"
  by (simp_all add: task_a_def truthy_def stable_def)

lemma extract_demo:
  "extractResult DEFAULT_CONFIG (Resolves (Some [question, answer]))
     = Inr (''done'' @ newline2 @ ''ok'')"
  by (simp add: extractResult_def answer_def question_def text_parts_def summarize_def
      DEFAULT_CONFIG_def newline2_def)

theorem stability_three_polls_witness:
  "getTask two_running 2 = Some task_a \<and> status task_a = Running \<and> truthy (sessionID task_a)
   \<and> lastMsgCount task_a = Some 1 \<and> stable task_a = 0
   \<and> observes two_running task_a None quiet_env 1
   \<and> observes two_running task_a None busy_env 2
   \<and> map_option status (getTask (pollTask two_running 2 None quiet_env) 2) = Some Running
   \<and> map_option status
        (getTask (pollTask (pollTask two_running 2 None quiet_env) 2 None quiet_env) 2)
       = Some Running
   \<and> map_option status
        (getTask (pollTask (pollTask (pollTask two_running 2 None quiet_env) 2 None quiet_env)
                    2 None quiet_env) 2)
       = Some Completed
   \<and> map_option stablePolls (getTask (pollTask two_running 2 None busy_env) 2) = Some (Some 0)
   \<and> map_option lastMsgCount (getTask (pollTask two_running 2 None busy_env) 2) = Some (Some 2)"
proof -
  have g: "getTask two_running 2 = Some task_a" by simp
  have e: "extractResult (config two_running) (result_reply quiet_env)
             = Inr (''done'' @ newline2 @ ''ok'')"
    using extract_demo by (simp add: two_running_def quiet_env_def)
  from stability_three_polls [OF g task_a_facts(1,2), where c = 1 and ?s1.0 = None
      and ?e1.0 = quiet_env and ?s2.0 = None and ?e2.0 = quiet_env and ?s3.0 = None
      and ?e3.0 = quiet_env and s = None and e = busy_env and c' = 2]
    task_a_facts observes_demo e g
  show ?thesis
    by (simp add: task_a_def)
qed

text \<open>
  The claim as it was stated fails: three poll steps in a row observe the unchanged
  count 1, and the third leaves the task in error, not completed, because the message
  request of the result extraction is rejected.
\<close>

theorem stability_third_poll_error:
  "observes two_running task_a None quiet_env 1
   \<and> observes two_running task_a None failing_env 1
   \<and> lastMsgCount task_a = Some 1
   \<and> map_option status
        (getTask (pollTask (pollTask two_running 2 None quiet_env) 2 None quiet_env) 2)
       = Some Running
   \<and> map_option status
        (getTask (pollTask (pollTask (pollTask two_running 2 None quiet_env) 2 None quiet_env)
                    2 None failing_env) 2)
       = Some Error"
proof -
  have g: "getTask two_running 2 = Some task_a" by simp
  have e: "extractResult (config two_running) (result_reply failing_env) = Inl ''fetch failed''"
    by (simp add: extractResult_def failing_env_def)
  from three_polls [OF g task_a_facts observes_demo(1) observes_demo(1) observes_demo(2)]
    e observes_demo task_a_facts
  show ?thesis
    by (simp add: resolved_def task_a_def)
qed

subsection \<open>Leaving a terminal state\<close>

lemma cancelTask_begin_live:
  assumes "getTask m i = Some t" and "\<not> terminal (status t)"
  shows "cancelTask_begin m i clock =
     (let m1 = assign i (\<lambda>u. u\<lparr>status := Cancelled, completedAt := Some clock\<rparr>) m
      in if truthy (sessionID t) then (send (SessionAbort (the (sessionID t))) m1, CancelAwaitsAbort)
         else (releaseSlot m1, CancelReturned True))"
  using assms by (auto simp: cancelTask_begin_def terminal_def Let_def)

lemma cancelTask_live:
  assumes "getTask m i = Some t" and "\<not> terminal (status t)"
  shows "cancelTask m i clock ar =
     (releaseSlot ((if truthy (sessionID t) then send (SessionAbort (the (sessionID t))) else id)
        (assign i (\<lambda>u. u\<lparr>status := Cancelled, completedAt := Some clock\<rparr>) m)), True)"
  using cancelTask_begin_live [OF assms]
  by (simp add: cancelTask_def cancelTask_end_def Let_def)

text \<open>
  The timeout path writes into a record that is already terminal: a poll step on the
  timed-out task 2 has set it to cancelled when it waits for the answer to \<open>abort\<close>;
  once the answer is there, the same poll step writes the error text into the record.
\<close>

lemma terminal_task_mutated:
  "snd (pollTask_begin two_running 2 130000 None) = PollAwaitsAbort
   \<and> map_option status (getTask timeout_cancelled 2) = Some Cancelled
   \<and> terminal Cancelled
   \<and> map_option error (getTask timeout_cancelled 2) = Some None
   \<and> map_option status (getTask timeout_stamped 2) = Some Cancelled
   \<and> map_option error (getTask timeout_stamped 2) = Some (Some ''Task timed out'')
   \<and> getTask timeout_stamped 2 \<noteq> getTask timeout_cancelled 2"
proof -
  have l: "\<not> terminal (status task_a)" by (simp add: task_a_def terminal_def)
  have b: "pollTask_begin two_running 2 130000 None
     = (send (SessionAbort ''ses_a'')
          (assign 2 (\<lambda>u. u\<lparr>status := Cancelled, completedAt := Some 130000\<rparr>) two_running),
        PollAwaitsAbort)"
    using cancelTask_begin_live [OF getTask_two_running(1) l, of 130000]
    by (simp add: pollTask_begin_def Let_def)
      (simp add: task_a_def truthy_def two_running_def DEFAULT_CONFIG_def)
  have 1: "getTask timeout_cancelled 2
      = Some (task_a\<lparr>status := Cancelled, completedAt := Some 130000\<rparr>)"
    by (simp add: timeout_cancelled_def b)
  have 2: "getTask timeout_stamped 2
      = Some (task_a\<lparr>status := Cancelled, completedAt := Some 130000, error := Some TIMED_OUT\<rparr>)"
    using 1 by (simp add: timeout_stamped_def pollTask_aborted_def cancelTask_end_def)
  from b 1 2 show ?thesis
    by (simp add: terminal_def TIMED_OUT_def task_a_def)
qed

subsection \<open>Two resolutions of one task that overlap\<close>

lemma race1: "race_event_started = send (SessionMessages ''ses_a'' None) two_running"
  using tryComplete_begin_running [of two_running 2 task_a]
  by (simp add: race_event_started_def) (simp add: task_a_def truthy_def)

lemma race2: "race_poll_started = send (SessionMessages ''ses_a'' None) race_event_started"
  "snd (pollTask_begin race_event_started 2 5000 (Some [''ses_a'' \<mapsto> ''idle''])) = PollAwaitsResult"
  unfolding race_poll_started_def race1
  by (simp_all add: pollTask_begin_def tryComplete_begin_def)
     (simp_all add: task_a_def truthy_def two_running_def DEFAULT_CONFIG_def)

text \<open>
  Claim C1 on the overlapping run defined above. \<open>handleEvent\<close> picks task 2; its
  deferred \<open>tryComplete\<close> passes the guards; the poll step passes them too while the
  first call is waiting. Both calls commit: the task is completed at 5100 and then put
  in error at 5200, and \<open>release()\<close> runs twice, so the count drops from 2 to 0 while
  task 3 is still running.
\<close>

theorem double_resolution_race:
  "handleEvent two_running idle_event = Some 2
   \<and> snd (tryComplete_begin two_running 2) = True
   \<and> race_poll_point = PollAwaitsResult
   \<and> map_option status (getTask race_event_committed 2) = Some Completed
   \<and> count (concurrency race_event_committed) = 1
   \<and> map_option status (getTask race_poll_committed 2) = Some Error
   \<and> map_option completedAt (getTask race_poll_committed 2) = Some (Some 5200)
   \<and> count (concurrency race_poll_committed) = 0
   \<and> map_option status (getTask race_poll_committed 3) = Some Running"
proof -
  have h: "handleEvent two_running idle_event = Some 2"
    by (simp add: handleEvent_def idle_event_def truthy_def findBySessionID_def two_running_def
        task_a_def)
  have b: "snd (tryComplete_begin two_running 2) = True"
    using tryComplete_begin_running [of two_running 2 task_a]
    by (simp add: task_a_def truthy_def)
  have g: "getTask race_poll_started 2 = Some task_a" "getTask race_poll_started 3 = Some task_b"
    "concurrency race_poll_started = concurrency two_running"
    "config race_poll_started = DEFAULT_CONFIG"
    by (simp_all add: race2 race1) (simp add: two_running_def)
  have e: "extractResult DEFAULT_CONFIG (Resolves (Some [question, answer])) = Inr (''done'' @ newline2 @ ''ok'')"
    by (simp add: extractResult_def answer_def question_def text_parts_def summarize_def
        DEFAULT_CONFIG_def newline2_def)
  have c1: "getTask race_event_committed 2
      = Some (task_a\<lparr>status := Completed, completedAt := Some 5100, result := Some (''done'' @ newline2 @ ''ok'')\<rparr>)"
    "getTask race_event_committed 3 = Some task_b"
    "concurrency race_event_committed = \<lparr>count = 1, queue = [], maxConcurrent = 3\<rparr>"
    "config race_event_committed = DEFAULT_CONFIG"
    using g e by (simp_all add: race_event_committed_def tryComplete_end_def two_running_def release_def)
  have c2: "getTask race_poll_committed 2
      = Some (task_a\<lparr>status := Error, completedAt := Some 5200, result := Some (''done'' @ newline2 @ ''ok''),
                     error := Some ''fetch failed''\<rparr>)"
    "getTask race_poll_committed 3 = Some task_b"
    "concurrency race_poll_committed = \<lparr>count = 0, queue = [], maxConcurrent = 3\<rparr>"
    using c1 by (simp_all add: race_poll_committed_def tryComplete_end_def extractResult_def release_def)
  from h b race2(2) c1 c2 show ?thesis
    by (simp add: task_b_def race_poll_point_def)
qed

subsection \<open>A terminal state that is left again\<close>

lemma queued_launch_eval:
  "fst queued_launch = 4" "fst (snd queued_launch) = False"
  "getTask queued_state 4
     = Some \<lparr>task_id = 4, sessionID = None, parentSessionID = ''root'', description = ''tests'',
             prompt = ''find the tests'', status = Pending, startedAt = None,
             completedAt = None, result = None, error = None, lastMsgCount = None,
             stablePolls = None\<rparr>"
  "concurrency queued_state
     = \<lparr>count = 2, queue = [\<lparr>owner = 4, settled = False\<rparr>], maxConcurrent = 2\<rparr>"
  "resumed queued_state = []"
  by (simp_all add: queued_launch_def queued_state_def launch_begin_def createTask_def
      acquire_def Let_def all_busy_def two_running_def find_tests_def getTask_def)

text \<open>
  Claim C2 on the two runs defined above. In the first, task 2 is running and its
  resolution waits for the messages; \<open>cancelTask\<close> sets the task to cancelled; the
  resolution then commits, and the task goes from cancelled to completed with a new
  \<open>completedAt\<close> and a result. In the second, task 4 is pending in the queue;
  \<open>cancelTask\<close> sets it to cancelled and its \<open>release()\<close> wakes the launch of task 4
  itself; the launch goes on and the task goes from cancelled to running, with a
  session and a \<open>startedAt\<close> later than its \<open>completedAt\<close>. In both a terminal state is
  left and fields of the terminal record are written.
\<close>

theorem terminal_state_left:
  "map_option status (getTask race_event_started 2) = Some Running
   \<and> getTask overlap_cancelled 2
       = Some (task_a\<lparr>status := Cancelled, completedAt := Some 6000\<rparr>)
   \<and> getTask overlap_committed 2
       = Some (task_a\<lparr>status := Completed, completedAt := Some 6100,
                       result := Some (''done'' @ newline2 @ ''ok'')\<rparr>)
   \<and> fst queued_launch = 4 \<and> fst (snd queued_launch) = False
   \<and> map_option status (getTask queued_state 4) = Some Pending
   \<and> map_option status (getTask queued_cancelled 4) = Some Cancelled
   \<and> map_option completedAt (getTask queued_cancelled 4) = Some (Some 7000)
   \<and> resumed queued_cancelled = [4]
   \<and> map_option status (getTask queued_continued 4) = Some Running
   \<and> map_option sessionID (getTask queued_continued 4) = Some (Some ''ses_c'')
   \<and> map_option startedAt (getTask queued_continued 4) = Some (Some 7100)
   \<and> map_option completedAt (getTask queued_continued 4) = Some (Some 7000)"
proof -
  have l: "\<not> terminal (status task_a)" by (simp add: task_a_def terminal_def)
  have g: "getTask race_event_started 2 = Some task_a" by (simp add: race1)
  have cc: "overlap_cancelled =
      releaseSlot (send (SessionAbort ''ses_a'')
        (assign 2 (\<lambda>u. u\<lparr>status := Cancelled, completedAt := Some 6000\<rparr>) race_event_started))"
    using cancelTask_live [OF g l, of 6000 "Resolves ()"]
    by (simp add: overlap_cancelled_def task_a_facts) (simp add: task_a_def)
  have c: "getTask overlap_cancelled 2 = Some (task_a\<lparr>status := Cancelled, completedAt := Some 6000\<rparr>)"
    "config overlap_cancelled = DEFAULT_CONFIG"
    using g by (simp_all add: cc) (simp_all add: race1 two_running_def)
  have d: "getTask overlap_committed 2
      = Some (task_a\<lparr>status := Completed, completedAt := Some 6100,
                      result := Some (''done'' @ newline2 @ ''ok'')\<rparr>)"
    using c extract_demo by (simp add: overlap_committed_def tryComplete_end_def)
  let ?p = "\<lparr>task_id = 4, sessionID = None, parentSessionID = ''root'', description = ''tests'',
             prompt = ''find the tests'', status = Pending, startedAt = None,
             completedAt = None, result = None, error = None, lastMsgCount = None,
             stablePolls = None\<rparr>"
  have lp: "\<not> terminal (status ?p)" by (simp add: terminal_def)
  have qc: "queued_cancelled =
      releaseSlot (assign 4 (\<lambda>u. u\<lparr>status := Cancelled, completedAt := Some 7000\<rparr>) queued_state)"
    using cancelTask_live [OF queued_launch_eval(3) lp, of 7000 "Resolves ()"]
    by (simp add: queued_cancelled_def truthy_def)
  have q1: "getTask queued_cancelled 4 = Some (?p\<lparr>status := Cancelled, completedAt := Some 7000\<rparr>)"
    "resumed queued_cancelled = [4]"
    by (simp_all add: qc queued_launch_eval woken_def release_def)
  have q2: "getTask queued_continued 4
      = Some (?p\<lparr>status := Running, completedAt := Some 7000, sessionID := Some ''ses_c'',
                   startedAt := Some 7100\<rparr>)"
    using q1 by (simp add: queued_continued_def launch_settled_def startSession_def Let_def)
  from g c d q1 q2 queued_launch_eval show ?thesis
    by (simp add: task_a_def)
qed

end
